theory Spec2Isabelle
  imports Main
begin

section \<open>Text\<close>

text \<open>
  Python's \<open>str\<close> is modelled by \<^typ>\<open>string\<close>: a list of characters with code points
  0 to 255. The string methods below are Python's, restricted to that range of code points.
  The response body, a \<open>bytes\<close> object, is a \<^typ>\<open>string\<close> as well.
\<close>

definition newline :: char where
  "newline = CHR 0x0A"

definition backslash :: char where
  "backslash = CHR 0x5C"

text \<open>\<open>str.lower\<close>: the cased letters below code point 256 are A to Z and the
  capital letters 0xC0 to 0xDE without the multiplication sign 0xD7; each is 32 below its
  lower-case letter.\<close>

definition lower_char :: "char \<Rightarrow> char" where
  "lower_char c =
     (let n = (of_char c :: nat)
      in if (65 \<le> n \<and> n \<le> 90) \<or> (192 \<le> n \<and> n \<le> 222 \<and> n \<noteq> 215)
         then char_of (n + 32) else c)"

definition lower :: "string \<Rightarrow> string" where
  "lower s = map lower_char s"

text \<open>\<open>str.join\<close>.\<close>

fun join :: "string \<Rightarrow> string list \<Rightarrow> string" where
  "join sep [] = []"
| "join sep [x] = x"
| "join sep (x # y # ys) = x @ sep @ join sep (y # ys)"

text \<open>\<open>str.replace(old, new)\<close>: every occurrence of \<open>old\<close>, left to right and without
  overlap. With an empty \<open>old\<close> Python puts \<open>new\<close> before every character and at the end.\<close>

function replace :: "string \<Rightarrow> string \<Rightarrow> string \<Rightarrow> string" where
  "replace old new [] = (if old = [] then new else [])"
| "replace old new (c # cs) =
     (if old = [] then new @ c # replace old new cs
      else if take (length old) (c # cs) = old
        then new @ replace old new (drop (length old) (c # cs))
        else c # replace old new cs)"
  by pat_completeness auto
termination
  by (relation "measure (\<lambda>(old, new, s). length s)") auto

text \<open>\<open>str.splitlines\<close>: the line boundaries below code point 256 are LF, VT, FF, CR,
  FS, GS, RS and NEL (0x85); CR LF is one boundary. The boundaries are not kept, and a
  boundary at the end of the text starts no further line.\<close>

definition is_linebreak :: "char \<Rightarrow> bool" where
  "is_linebreak c = (of_char c \<in> {10, 11, 12, 13, 28, 29, 30, 133 :: nat})"

definition after_break :: "string \<Rightarrow> string" where
  "after_break s =
     (case s of
        [] \<Rightarrow> []
      | c # cs \<Rightarrow>
          (if c = CHR 0x0D then (case cs of [] \<Rightarrow> [] | d # ds \<Rightarrow> if d = CHR 0x0A then ds else cs)
           else cs))"

function splitlines :: "string \<Rightarrow> string list" where
  "splitlines [] = []"
| "splitlines (c # cs) =
     takeWhile (\<lambda>x. \<not> is_linebreak x) (c # cs)
     # splitlines (after_break (dropWhile (\<lambda>x. \<not> is_linebreak x) (c # cs)))"
  by pat_completeness auto
termination
proof (relation "measure length")
  show "wf (measure length)" by simp
next
  fix c :: char and cs :: string
  have b: "length (after_break s) < length s" if "s \<noteq> []" for s
    using that by (auto simp: after_break_def split: list.splits)
  let ?r = "dropWhile (\<lambda>x. \<not> is_linebreak x) (c # cs)"
  have "length (after_break ?r) < length (c # cs)"
  proof (cases ?r)
    case Nil
    then show ?thesis by (simp add: after_break_def)
  next
    case (Cons d ds)
    then have "?r \<noteq> []" by simp
    then have "length (after_break ?r) < length ?r" by (rule b)
    also have "length ?r \<le> length (c # cs)" by (rule length_dropWhile_le)
    finally show ?thesis .
  qed
  then show "(after_break ?r, c # cs) \<in> measure length" by simp
qed

text \<open>\<open>str.strip()\<close> removes white space at both ends; below code point 256 the white
  space characters are 9 to 13, 28 to 32, 0x85 and 0xA0.\<close>

definition is_space :: "char \<Rightarrow> bool" where
  "is_space c =
     (let n = (of_char c :: nat)
      in (9 \<le> n \<and> n \<le> 13) \<or> (28 \<le> n \<and> n \<le> 32) \<or> n = 133 \<or> n = 160)"

definition strip :: "string \<Rightarrow> string" where
  "strip s = rev (dropWhile is_space (rev (dropWhile is_space s)))"

section \<open>The pattern of linked terms\<close>

text \<open>
  \<open>linked_terms_pattern = re.compile(r'\[([^]]*)\]')\<close>: an opening bracket, any number of
  characters other than the closing bracket (the one group), a closing bracket.
  \<open>findall\<close> scans from the left and returns the group of every match; the scan goes on
  behind a match, and one character further where no match starts. A match starts at an
  opening bracket that has a closing bracket somewhere behind it, and ends at the first
  such bracket.
\<close>

function findall :: "string \<Rightarrow> string list" where
  "findall [] = []"
| "findall (c # cs) =
     (if c = CHR ''[''
      then (case dropWhile (\<lambda>x. x \<noteq> CHR '']'') cs of
              [] \<Rightarrow> findall cs
            | _ # rest \<Rightarrow> takeWhile (\<lambda>x. x \<noteq> CHR '']'') cs # findall rest)
      else findall cs)"
  by pat_completeness auto
termination
proof (relation "measure length")
  show "wf (measure length)" by simp
next
  fix c :: char and cs :: string
  show "(cs, c # cs) \<in> measure length" by simp
next
  fix c :: char and cs :: string and x21 :: char and x22 :: string
  assume "dropWhile (\<lambda>x. x \<noteq> CHR '']'') cs = x21 # x22"
  then have "length (x21 # x22) \<le> length cs"
    using length_dropWhile_le [of "\<lambda>x. x \<noteq> CHR '']''" cs] by simp
  then show "(x22, c # cs) \<in> measure length" by simp
next
  fix c :: char and cs :: string
  show "(cs, c # cs) \<in> measure length" by simp
qed

section \<open>The definition fetcher\<close>

text \<open>The exceptions this code can raise. \<open>RequestFailed\<close> stands for whatever the HTTP
  connection raises, \<open>DecodeError\<close> for what \<open>bytes.decode\<close> and \<open>json.loads\<close> raise.\<close>

datatype py_error =
  RequestFailed | DecodeError | KeyError | IndexError | TypeError | AttributeError | ValueError

text \<open>What \<open>json.loads\<close> returns: \<open>None\<close>, a bool, a number (kept as Python prints it),
  a \<open>str\<close>, a list, or a dict (its items; all keys are strings).\<close>

datatype json =
    JNull
  | JBool bool
  | JNumber string
  | JString string
  | JArray "json list"
  | JObject "(string \<times> json) list"

text \<open>Subscription \<open>v[key]\<close> with a string key: only a dict takes one; a list and a
  \<open>str\<close> want integers, the other values have no subscription.\<close>

fun getitem :: "json \<Rightarrow> string \<Rightarrow> py_error + json" where
  "getitem (JObject items) key =
     (case map_of items key of None \<Rightarrow> Inl KeyError | Some v \<Rightarrow> Inr v)"
| "getitem v key = Inl TypeError"

text \<open>Subscription \<open>v[0]\<close>: the first element of a list, the first character of a
  \<open>str\<close>; no dict of JSON has the key \<open>0\<close>.\<close>

fun getitem0 :: "json \<Rightarrow> py_error + json" where
  "getitem0 (JArray []) = Inl IndexError"
| "getitem0 (JArray (x # xs)) = Inr x"
| "getitem0 (JString []) = Inl IndexError"
| "getitem0 (JString (c # cs)) = Inr (JString [c])"
| "getitem0 (JObject items) = Inl KeyError"
| "getitem0 v = Inl TypeError"

text \<open>The dataclass \<open>UrbanDefinition\<close>. Its fields are annotated \<open>str\<close>, which Python does
  not check: the fetcher stores whatever values the response holds.\<close>

record UrbanDefinition =
  ud_word :: json
  ud_definition :: json
  ud_example :: json
  ud_permalink :: json

text \<open>
  What the code takes from outside: \<open>http_get term\<close> is the body read from the response
  to \<open>GET /v0/define?term=\<close> with the quoted \<open>term\<close> (or the exception of the connection);
  \<open>json_loads\<close> is \<open>json.loads(data_bytes.decode('utf-8'))\<close>; \<open>py_str\<close> is Python's \<open>str()\<close>
  of a value that is not a \<open>str\<close>, as an f-string formats it.
\<close>

record env =
  http_get :: "string \<Rightarrow> py_error + string"
  json_loads :: "string \<Rightarrow> py_error + json"
  py_str :: "json \<Rightarrow> string"

definition raise_or :: "py_error + 'a \<Rightarrow> ('a \<Rightarrow> py_error + 'b) \<Rightarrow> py_error + 'b" where
  "raise_or r f = (case r of Inl e \<Rightarrow> Inl e | Inr v \<Rightarrow> f v)"

text \<open>\<open>fetch_urban_dictionary_definition\<close>; \<open>None\<close> is Python's \<open>None\<close>.\<close>

definition fetch_urban_dictionary_definition ::
  "env \<Rightarrow> string \<Rightarrow> py_error + UrbanDefinition option" where
  "fetch_urban_dictionary_definition ev trm =
     raise_or (http_get ev trm) (\<lambda>data_bytes.
       if length data_bytes = 0 then Inr None
       else
         raise_or (json_loads ev data_bytes) (\<lambda>doc.
         raise_or (getitem doc ''list'') (\<lambda>lst.
         raise_or (getitem0 lst) (\<lambda>first_result.
         raise_or (getitem first_result ''word'') (\<lambda>w.
         raise_or (getitem first_result ''definition'') (\<lambda>d.
         raise_or (getitem first_result ''example'') (\<lambda>e.
         raise_or (getitem first_result ''permalink'') (\<lambda>p.
           Inr (Some \<lparr>ud_word = w, ud_definition = d, ud_example = e, ud_permalink = p\<rparr>)))))))))"

section \<open>Sending a definition\<close>

text \<open>The button of a linked term (\<open>UbanDictionaryButton\<close>): its label, its term and the
  terms that led to the definition it stands under.\<close>

record UbanDictionaryButton =
  button_label :: string
  button_term :: string
  button_previous_terms :: "string list"

definition new_button :: "string \<Rightarrow> string list \<Rightarrow> UbanDictionaryButton" where
  "new_button trm previous_terms =
     \<lparr>button_label = trm, button_term = trm, button_previous_terms = previous_terms\<rparr>"

text \<open>What \<open>interaction.response.send_message\<close> is called with: a text alone, or an embed
  (its description) with a view (its buttons, in the order they were added). What the
  platform does with the message is no part of this model.\<close>

datatype message = Content string | EmbedView string "UbanDictionaryButton list"

fun embed_description :: "message \<Rightarrow> string option" where
  "embed_description (Content c) = None"
| "embed_description (EmbedView e v) = Some e"

fun view_items :: "message \<Rightarrow> UbanDictionaryButton list" where
  "view_items (Content c) = []"
| "view_items (EmbedView e v) = v"

text \<open>The local function \<open>clean\<close>. \<open>r'\r\n'\<close> is a raw string: a backslash, r, a
  backslash, n.\<close>

definition clean :: "string \<Rightarrow> string" where
  "clean txt =
     join [newline]
       (filter (\<lambda>l. length (strip l) > 0)
          (splitlines
             (replace '']'' ''__''
                (replace ''['' ''__''
                   (replace [backslash, CHR ''r'', backslash, CHR ''n''] [newline] txt)))))"

definition description :: "string list \<Rightarrow> string \<Rightarrow> string \<Rightarrow> string \<Rightarrow> string" where
  "description terms_to_get_here dfn example permalink =
     join [newline]
       ([''# '' @ join '' > '' terms_to_get_here]
        @ map (\<lambda>l. ''### '' @ l) (splitlines (clean dfn))
        @ [[newline]]
        @ map (\<lambda>l. ''*'' @ l @ ''*'') (splitlines (clean example))
        @ [''[website]('' @ permalink @ '')''])"

text \<open>
  \<open>discord.ui.View.add_item\<close>, the one method of the view the code calls. A view holds at
  most 25 items: \<open>add_item\<close> on a view that holds 25 raises \<open>ValueError\<close>; below that it
  appends the item (a button takes one of the five places of a row, and of the five rows
  one has a place left as long as the view holds fewer than 25).
\<close>

definition view_add_item ::
  "UbanDictionaryButton list \<Rightarrow> UbanDictionaryButton \<Rightarrow> py_error + UbanDictionaryButton list" where
  "view_add_item view item =
     (if length view \<ge> 25 then Inl ValueError else Inr (view @ [item]))"

text \<open>The loop over \<open>other_terms\<close>; its state is the view (the items added so far) and
  the set \<open>processed_terms\<close>. \<open>add_item\<close> is the method of the view the loop is run on; an
  exception it raises ends the loop and the call.\<close>

fun add_buttons ::
  "('v \<Rightarrow> UbanDictionaryButton \<Rightarrow> py_error + 'v) \<Rightarrow> string list \<Rightarrow> string list
     \<Rightarrow> 'v \<times> string set \<Rightarrow> py_error + 'v \<times> string set" where
  "add_buttons add_item terms_to_get_here [] st = Inr st"
| "add_buttons add_item terms_to_get_here (other_term # other_terms) (view, processed_terms) =
     (let other_term = lower other_term
      in if other_term \<in> processed_terms
         then add_buttons add_item terms_to_get_here other_terms (view, processed_terms)
         else (case add_item view (new_button other_term terms_to_get_here) of
                 Inl e \<Rightarrow> Inl e
               | Inr view \<Rightarrow>
                   add_buttons add_item terms_to_get_here other_terms
                     (view, insert other_term processed_terms)))"

text \<open>How an f-string formats a value: a \<open>str\<close> as it is.\<close>

fun format_value :: "env \<Rightarrow> json \<Rightarrow> string" where
  "format_value ev (JString s) = s"
| "format_value ev v = py_str ev v"

text \<open>
  The second half of \<open>send_urban_dictionary_definition\<close> (under \<open># Build a UI\<close>), for the
  definition fetched. The title is joined first, which raises \<open>TypeError\<close> for a word that
  is not a \<open>str\<close>; then \<open>clean\<close> calls \<open>replace\<close> on the definition and on the example, which
  raises \<open>AttributeError\<close> for a value that is not a \<open>str\<close>. The loop runs on a new, empty
  view; when the view refuses a button, no message is sent.
\<close>

definition build_ui :: "env \<Rightarrow> UrbanDefinition \<Rightarrow> string list \<Rightarrow> py_error + message" where
  "build_ui ev d previous_terms =
     (case ud_word d of
        JString w \<Rightarrow>
          (case ud_definition d of
             JString dfn \<Rightarrow>
               (case ud_example d of
                  JString ex \<Rightarrow>
                    (let terms_to_get_here = previous_terms @ [w];
                         e = description terms_to_get_here dfn ex (format_value ev (ud_permalink d));
                         other_terms = findall dfn @ findall ex
                     in (case add_buttons view_add_item terms_to_get_here other_terms ([], {}) of
                           Inl err \<Rightarrow> Inl err
                         | Inr (view, processed_terms) \<Rightarrow> Inr (EmbedView e view)))
                | _ \<Rightarrow> Inl AttributeError)
           | _ \<Rightarrow> Inl AttributeError)
      | _ \<Rightarrow> Inl TypeError)"

definition send_urban_dictionary_definition ::
  "env \<Rightarrow> string \<Rightarrow> string list \<Rightarrow> py_error + message" where
  "send_urban_dictionary_definition ev trm previous_terms =
     raise_or (fetch_urban_dictionary_definition ev trm) (\<lambda>r.
       case r of
         None \<Rightarrow> Inr (Content ''Failed to get a definition'')
       | Some d \<Rightarrow> build_ui ev d previous_terms)"

text \<open>\<open>UbanDictionaryButton.callback\<close>.\<close>

definition callback :: "env \<Rightarrow> UbanDictionaryButton \<Rightarrow> py_error + message" where
  "callback ev b = send_urban_dictionary_definition ev (button_term b) (button_previous_terms b)"

text \<open>The buttons of the message sent; none when the call raised.\<close>

definition sent_view :: "py_error + message \<Rightarrow> UbanDictionaryButton list" where
  "sent_view r = (case r of Inl e \<Rightarrow> [] | Inr m \<Rightarrow> view_items m)"

section \<open>Notions of the specification\<close>

text \<open>
  The specification's term extractor is no function of its own in the source: it is the
  scan for the pattern followed by the loop, and the terms it returns are the terms of the
  buttons the loop makes. To have all of them, the loop is run on a plain list in place of
  the view, which takes every item. Here the loop starts from any set of terms already
  seen; the source starts it from the empty set.
\<close>

definition list_add_item ::
  "UbanDictionaryButton list \<Rightarrow> UbanDictionaryButton \<Rightarrow> py_error + UbanDictionaryButton list" where
  "list_add_item items item = Inr (items @ [item])"

definition extract_terms :: "string \<Rightarrow> string set \<Rightarrow> string list" where
  "extract_terms txt already_seen =
     (case add_buttons list_add_item [] (findall txt) ([], already_seen) of
        Inl e \<Rightarrow> []
      | Inr (items, processed_terms) \<Rightarrow> map button_term items)"

text \<open>First-seen order, the yardstick for the loop: every element once, at the place
  of its first occurrence.\<close>

primrec first_seen :: "'a list \<Rightarrow> 'a list" where
  "first_seen [] = []"
| "first_seen (x # xs) = x # filter (\<lambda>y. y \<noteq> x) (first_seen xs)"

text \<open>A text leaves no bracket open when every opening bracket in it has a closing
  bracket somewhere behind it.\<close>

fun brackets_closed :: "string \<Rightarrow> bool" where
  "brackets_closed [] = True"
| "brackets_closed (c # cs) =
     ((if c = CHR ''['' then CHR '']'' \<in> set cs else True) \<and> brackets_closed cs)"

section \<open>A world to run the code in\<close>

text \<open>
  Four terms and the bodies the dictionary answers with: two definitions, a document with
  an empty list, and an empty body; every other request fails. \<open>json_loads\<close> is
  \<open>json.loads\<close> on these bodies. \<open>py_str\<close> is Python's \<open>str()\<close> of \<open>None\<close>, of a bool and of
  a number; for a list or a dict it gives a placeholder and not Python's text. Every value
  formatted in the runs below is a \<open>str\<close>, so \<open>py_str\<close> is never asked.
\<close>

fun str_of_atom :: "json \<Rightarrow> string" where
  "str_of_atom JNull = ''None''"
| "str_of_atom (JBool b) = (if b then ''True'' else ''False'')"
| "str_of_atom (JNumber n) = n"
| "str_of_atom (JString s) = s"
| "str_of_atom (JArray xs) = ''[...]''"
| "str_of_atom (JObject kvs) = ''{...}''"

definition foo_body :: string where
  \<open>foo_body = ''{"list":[{"word":"foo","definition":"see [bar]","example":"","permalink":"http://x"}]}''\<close>

definition bar_body :: string where
  \<open>bar_body = ''{"list":[{"word":"bar","definition":"","example":"","permalink":"http://y"}]}''\<close>

definition empty_list_body :: string where
  \<open>empty_list_body = ''{"list":[]}''\<close>

definition foo_definition :: UrbanDefinition where
  "foo_definition =
     \<lparr>ud_word = JString ''foo'', ud_definition = JString ''see [bar]'',
      ud_example = JString [], ud_permalink = JString ''http://x''\<rparr>"

definition bar_definition :: UrbanDefinition where
  "bar_definition =
     \<lparr>ud_word = JString ''bar'', ud_definition = JString [],
      ud_example = JString [], ud_permalink = JString ''http://y''\<rparr>"

definition as_json :: "UrbanDefinition \<Rightarrow> json" where
  "as_json d =
     JObject [(''word'', ud_word d), (''definition'', ud_definition d),
              (''example'', ud_example d), (''permalink'', ud_permalink d)]"

definition demo_env :: env where
  "demo_env =
     \<lparr>http_get = (\<lambda>t. if t = ''foo'' then Inr foo_body
                     else if t = ''bar'' then Inr bar_body
                     else if t = ''unheard'' then Inr empty_list_body
                     else if t = ''silence'' then Inr []
                     else Inl RequestFailed),
      json_loads = (\<lambda>b. if b = foo_body then Inr (JObject [(''list'', JArray [as_json foo_definition])])
                       else if b = bar_body then Inr (JObject [(''list'', JArray [as_json bar_definition])])
                       else if b = empty_list_body then Inr (JObject [(''list'', JArray [])])
                       else Inl DecodeError),
      py_str = str_of_atom\<rparr>"

section \<open>The loop and the scan\<close>

lemma filter_distinct_from: "\<not> P x \<Longrightarrow> filter P (filter (\<lambda>y. y \<noteq> x) ys) = filter P ys"
  by (induction ys) auto

lemma filter_swap: "filter P (filter Q xs) = filter Q (filter P xs)"
  by (induction xs) simp_all

lemma first_seen_filter: "first_seen (filter P xs) = filter P (first_seen xs)"
proof (induction xs)
  case Nil
  show ?case by simp
next
  case (Cons x xs)
  show ?case
  proof (cases "P x")
    case True
    then show ?thesis using Cons.IH filter_swap [of P "\<lambda>y. y \<noteq> x"] by simp
  next
    case False
    then show ?thesis using Cons.IH filter_distinct_from [of P x] by simp
  qed
qed

lemma set_first_seen: "set (first_seen xs) = set xs"
  by (induction xs) auto

lemma distinct_first_seen: "distinct (first_seen xs)"
  by (induction xs) auto

text \<open>The loop makes one button for every term that, in lower case, is neither in the
  set it started from nor came earlier in the list; the set grows by all terms. On a list
  every button is added.\<close>

lemma first_seen_insert:
  "first_seen (filter (\<lambda>y. y \<noteq> x \<and> y \<notin> P) xs)
     = filter (\<lambda>y. y \<noteq> x) (first_seen (filter (\<lambda>t. t \<notin> P) xs))"
proof -
  have "filter (\<lambda>y. y \<noteq> x \<and> y \<notin> P) xs = filter (\<lambda>y. y \<noteq> x) (filter (\<lambda>t. t \<notin> P) xs)"
    by (induction xs) auto
  then show ?thesis by (simp only: first_seen_filter)
qed

lemma add_buttons_list:
  "add_buttons list_add_item tgh ts (view, P) =
     Inr (view @ map (\<lambda>t. new_button t tgh) (first_seen (filter (\<lambda>t. t \<notin> P) (map lower ts))),
          P \<union> set (map lower ts))"
proof (induction ts arbitrary: view P)
  case Nil
  show ?case by simp
next
  case (Cons t ts)
  show ?case
  proof (cases "lower t \<in> P")
    case True
    then show ?thesis by (simp add: Cons.IH insert_absorb)
  next
    case False
    have step: "list_add_item view (new_button (lower t) tgh)
                  = Inr (view @ [new_button (lower t) tgh])"
      by (simp add: list_add_item_def)
    from False show ?thesis by (simp add: step Cons.IH first_seen_insert Let_def)
  qed
qed

text \<open>On a view the loop is the same as long as the view has room, and raises
  \<open>ValueError\<close> when the buttons to add do not fit.\<close>

lemma add_buttons_view:
  "length view \<le> 25 \<Longrightarrow>
   add_buttons view_add_item tgh ts (view, P) =
     (if length view + length (first_seen (filter (\<lambda>t. t \<notin> P) (map lower ts))) \<le> 25
      then Inr (view @ map (\<lambda>t. new_button t tgh)
                         (first_seen (filter (\<lambda>t. t \<notin> P) (map lower ts))),
                P \<union> set (map lower ts))
      else Inl ValueError)"
proof (induction ts arbitrary: view P)
  case Nil
  then show ?case by simp
next
  case (Cons t ts)
  show ?case
  proof (cases "lower t \<in> P")
    case True
    then show ?thesis using Cons.IH [OF Cons.prems] by (simp add: insert_absorb)
  next
    case False
    show ?thesis
    proof (cases "length view \<ge> 25")
      case True
      then have step: "view_add_item view (new_button (lower t) tgh) = Inl ValueError"
        by (simp add: view_add_item_def)
      from False have lhs: "add_buttons view_add_item tgh (t # ts) (view, P) = Inl ValueError"
        by (simp add: step Let_def)
      from False have "first_seen (filter (\<lambda>t. t \<notin> P) (map lower (t # ts))) \<noteq> []"
        by simp
      then have "0 < length (first_seen (filter (\<lambda>t. t \<notin> P) (map lower (t # ts))))"
        by (rule length_greater_0_conv [THEN iffD2])
      with True
      have neg: "\<not> length view + length (first_seen (filter (\<lambda>t. t \<notin> P) (map lower (t # ts)))) \<le> 25"
        by linarith
      show ?thesis by (simp only: lhs if_not_P [OF neg])
    next
      case room: False
      then have step: "view_add_item view (new_button (lower t) tgh)
                         = Inr (view @ [new_button (lower t) tgh])"
        by (simp add: view_add_item_def)
      from room have "length (view @ [new_button (lower t) tgh]) \<le> 25" by simp
      from Cons.IH [OF this] False show ?thesis
        by (simp add: step first_seen_insert Let_def)
    qed
  qed
qed

lemma button_term_new_button: "map button_term (map (\<lambda>t. new_button t tgh) ts) = ts"
  by (induction ts) (simp_all add: new_button_def)

lemma extract_terms_eq:
  "extract_terms txt P = first_seen (filter (\<lambda>t. t \<notin> P) (map lower (findall txt)))"
  by (simp only: extract_terms_def add_buttons_list sum.case prod.case append_Nil
        button_term_new_button)

lemma findall_no_open: "CHR ''['' \<notin> set p \<Longrightarrow> findall (p @ r) = findall r"
  by (induction p) auto

lemma findall_no_open_Nil: "CHR ''['' \<notin> set p \<Longrightarrow> findall p = []"
  using findall_no_open [of p "[]"] by simp

lemma brackets_closed_append: "brackets_closed (xs @ ys) \<Longrightarrow> brackets_closed ys"
  by (induction xs) (auto split: if_splits)

text \<open>Behind a text that leaves no bracket open the scan starts afresh.\<close>

lemma findall_append:
  "brackets_closed p \<Longrightarrow> findall (p @ r) = findall p @ findall r"
proof (induction p rule: findall.induct)
  case 1
  show ?case by simp
next
  case (2 c cs)
  show ?case
  proof (cases "c = CHR ''[''")
    case False
    with 2 show ?thesis by simp
  next
    case True
    with "2.prems" have cl: "CHR '']'' \<in> set cs" and bc: "brackets_closed cs" by simp_all
    from cl have "dropWhile (\<lambda>x. x \<noteq> CHR '']'') cs \<noteq> []" by simp
    then obtain b rest where d0: "dropWhile (\<lambda>x. x \<noteq> CHR '']'') cs = b # rest"
      by (cases "dropWhile (\<lambda>x. x \<noteq> CHR '']'') cs") auto
    have "\<not> (b \<noteq> CHR '']'')" using hd_dropWhile [of "\<lambda>x. x \<noteq> CHR '']''" cs] d0 by simp
    then have d: "dropWhile (\<lambda>x. x \<noteq> CHR '']'') cs = CHR '']'' # rest" using d0 by simp
    have cs: "cs = takeWhile (\<lambda>x. x \<noteq> CHR '']'') cs @ CHR '']'' # rest"
      using takeWhile_dropWhile_id [of "\<lambda>x. x \<noteq> CHR '']''" cs] d by simp
    have "brackets_closed (CHR '']'' # rest)"
      using bc brackets_closed_append [of "takeWhile (\<lambda>x. x \<noteq> CHR '']'') cs" "CHR '']'' # rest"] cs
      by simp
    then have r: "brackets_closed rest" by simp
    have d2: "dropWhile (\<lambda>x. x \<noteq> CHR '']'') (cs @ r) = CHR '']'' # rest @ r"
      using cl d by (simp add: dropWhile_append1)
    have t2: "takeWhile (\<lambda>x. x \<noteq> CHR '']'') (cs @ r) = takeWhile (\<lambda>x. x \<noteq> CHR '']'') cs"
      using cl by (simp add: takeWhile_append1)
    have "findall (rest @ r) = findall rest @ findall r"
      using "2.IH"(2) [OF True d r] .
    then show ?thesis using True d d2 t2 by simp
  qed
qed

lemma findall_no_close: "CHR '']'' \<notin> set r \<Longrightarrow> findall r = []"
proof (induction r rule: findall.induct)
  case 1
  show ?case by simp
next
  case (2 c cs)
  from "2.prems" have d: "dropWhile (\<lambda>x. x \<noteq> CHR '']'') cs = []"
    by (auto simp: dropWhile_eq_Nil_conv)
  from "2.prems" have n: "CHR '']'' \<notin> set cs" by simp
  show ?case
  proof (cases "c = CHR ''[''")
    case True
    with d "2.IH"(1) [OF True d n] show ?thesis by (simp del: dropWhile_eq_Nil_conv)
  next
    case False
    with "2.IH"(3) [OF False n] show ?thesis by simp
  qed
qed

text \<open>Nor does a text without a closing bracket add to what stands before it.\<close>

lemma findall_append_no_close:
  "CHR '']'' \<notin> set r \<Longrightarrow> findall (p @ r) = findall p"
proof (induction p rule: findall.induct)
  case 1
  then show ?case by (simp add: findall_no_close)
next
  case (2 c cs)
  show ?case
  proof (cases "c = CHR ''[''")
    case False
    with 2 show ?thesis by simp
  next
    case True
    show ?thesis
    proof (cases "CHR '']'' \<in> set cs")
      case no: False
      with "2.prems" have "dropWhile (\<lambda>x. x \<noteq> CHR '']'') (cs @ r) = []"
        and d: "dropWhile (\<lambda>x. x \<noteq> CHR '']'') cs = []"
        by (auto simp: dropWhile_eq_Nil_conv)
      moreover have "findall (cs @ r) = findall cs"
        using "2.IH"(1) [OF True d "2.prems"] .
      ultimately show ?thesis using True by (simp del: dropWhile_eq_Nil_conv)
    next
      case cl: True
      then have "dropWhile (\<lambda>x. x \<noteq> CHR '']'') cs \<noteq> []" by simp
      then obtain b rest where d: "dropWhile (\<lambda>x. x \<noteq> CHR '']'') cs = b # rest"
        by (cases "dropWhile (\<lambda>x. x \<noteq> CHR '']'') cs") auto
      have d2: "dropWhile (\<lambda>x. x \<noteq> CHR '']'') (cs @ r) = b # rest @ r"
        using cl d by (simp add: dropWhile_append1)
      have t2: "takeWhile (\<lambda>x. x \<noteq> CHR '']'') (cs @ r) = takeWhile (\<lambda>x. x \<noteq> CHR '']'') cs"
        using cl by (simp add: takeWhile_append1)
      have "findall (rest @ r) = findall rest"
        using "2.IH"(2) [OF True d "2.prems"] .
      then show ?thesis using True d d2 t2 by simp
    qed
  qed
qed

text \<open>So the scan of two texts in a row is the scan of each, unless the first leaves a
  bracket open and the second closes it.\<close>

lemma findall_parts:
  "brackets_closed p \<or> CHR '']'' \<notin> set r \<Longrightarrow> findall (p @ r) = findall p @ findall r"
  using findall_append [of p r] findall_append_no_close [of r p] findall_no_close [of r]
  by auto

text \<open>And only then: a bracket that the first text leaves open and the second closes is
  a match of the two in a row and of neither.\<close>

lemma brackets_closed_before_close:
  "CHR '']'' \<in> set ys \<Longrightarrow> brackets_closed (xs @ ys) = brackets_closed ys"
  by (induction xs) auto

lemma takeWhile_no_close:
  "CHR '']'' \<notin> set cs \<Longrightarrow>
     takeWhile (\<lambda>x. x \<noteq> CHR '']'') (cs @ r) = cs @ takeWhile (\<lambda>x. x \<noteq> CHR '']'') r"
  by (induction cs) auto

lemma dropWhile_no_close:
  "CHR '']'' \<notin> set cs \<Longrightarrow>
     dropWhile (\<lambda>x. x \<noteq> CHR '']'') (cs @ r) = dropWhile (\<lambda>x. x \<noteq> CHR '']'') r"
  by (induction cs) auto

lemma findall_open_then_close:
  assumes "CHR '']'' \<notin> set cs" and "CHR '']'' \<in> set r"
  shows "findall (CHR ''['' # cs @ r) \<noteq> findall r"
proof -
  let ?P = "\<lambda>x. x \<noteq> CHR '']''"
  from assms(2) have "dropWhile ?P r \<noteq> []" by simp
  then obtain b r' where d0: "dropWhile ?P r = b # r'"
    by (cases "dropWhile ?P r") auto
  have "\<not> ?P b" using hd_dropWhile [of ?P r] d0 by simp
  then have d: "dropWhile ?P r = CHR '']'' # r'" using d0 by simp
  define h where "h = takeWhile ?P r"
  have r: "r = h @ CHR '']'' # r'"
    using takeWhile_dropWhile_id [of ?P r] d by (simp add: h_def)
  have hn: "CHR '']'' \<notin> set h"
    unfolding h_def using set_takeWhileD [of "CHR '']''" ?P r] by blast
  have t1: "takeWhile ?P (cs @ r) = cs @ h"
    using assms(1) by (simp add: takeWhile_no_close h_def)
  have d1: "dropWhile ?P (cs @ r) = CHR '']'' # r'"
    using assms(1) d by (simp add: dropWhile_no_close)
  have lhs: "findall (CHR ''['' # cs @ r) = (cs @ h) # findall r'"
    by (simp add: t1 d1)
  show ?thesis
  proof (cases "CHR ''['' \<in> set h")
    case False
    then have "CHR ''['' \<notin> set (h @ [CHR '']''])" by simp
    from findall_no_open [OF this, of r'] have "findall r = findall r'"
      by (simp add: r)
    with lhs show ?thesis by simp
  next
    case True
    then obtain h1 h2 where h: "h = h1 @ CHR ''['' # h2" and h1: "CHR ''['' \<notin> set h1"
      by (meson split_list_first)
    from hn h have h2n: "CHR '']'' \<notin> set h2" by simp
    have "findall r = findall (CHR ''['' # h2 @ CHR '']'' # r')"
      using findall_no_open [OF h1, of "CHR ''['' # h2 @ CHR '']'' # r'"] by (simp add: r h)
    also have "\<dots> = h2 # findall r'"
      using h2n by (simp add: takeWhile_no_close dropWhile_no_close)
    finally have "findall r = h2 # findall r'" .
    moreover have "cs @ h \<noteq> h2"
    proof
      assume "cs @ h = h2"
      then have "length (cs @ h) = length h2" by simp
      then show False by (simp add: h)
    qed
    ultimately show ?thesis using lhs by simp
  qed
qed

lemma findall_parts_differ:
  "\<not> brackets_closed p \<Longrightarrow> CHR '']'' \<in> set r \<Longrightarrow> findall (p @ r) \<noteq> findall p @ findall r"
proof (induction p rule: findall.induct)
  case 1
  then show ?case by simp
next
  case (2 c cs)
  let ?P = "\<lambda>x. x \<noteq> CHR '']''"
  show ?case
  proof (cases "c = CHR ''[''")
    case False
    with "2.prems" have "\<not> brackets_closed cs" by simp
    from "2.IH"(3) [OF False this "2.prems"(2)] False show ?thesis by simp
  next
    case True
    show ?thesis
    proof (cases "CHR '']'' \<in> set cs")
      case no: False
      then have "findall cs = []" by (rule findall_no_close)
      moreover from no have "dropWhile ?P cs = []" by (auto simp: dropWhile_eq_Nil_conv)
      ultimately have "findall (c # cs) = []" using True by (simp del: dropWhile_eq_Nil_conv)
      with findall_open_then_close [OF no "2.prems"(2)] True show ?thesis by simp
    next
      case cl: True
      then have "dropWhile ?P cs \<noteq> []" by simp
      then obtain b rest where d0: "dropWhile ?P cs = b # rest"
        by (cases "dropWhile ?P cs") auto
      have "\<not> ?P b" using hd_dropWhile [of ?P cs] d0 by simp
      then have d: "dropWhile ?P cs = CHR '']'' # rest" using d0 by simp
      have cs: "cs = takeWhile ?P cs @ CHR '']'' # rest"
        using takeWhile_dropWhile_id [of ?P cs] d by simp
      have "brackets_closed cs = brackets_closed (CHR '']'' # rest)"
        using brackets_closed_before_close [of "CHR '']'' # rest" "takeWhile ?P cs"] cs by simp
      with "2.prems"(1) True cl have nr: "\<not> brackets_closed rest" by simp
      have d2: "dropWhile ?P (cs @ r) = CHR '']'' # rest @ r"
        using cl d by (simp add: dropWhile_append1)
      have t2: "takeWhile ?P (cs @ r) = takeWhile ?P cs"
        using cl by (simp add: takeWhile_append1)
      from "2.IH"(2) [OF True d nr "2.prems"(2)] True d d2 t2 show ?thesis by simp
    qed
  qed
qed

lemma findall_parts_iff:
  "(findall (p @ r) = findall p @ findall r) = (brackets_closed p \<or> CHR '']'' \<notin> set r)"
  using findall_parts [of p r] findall_parts_differ [of p r] by blast

section \<open>The user interface built\<close>

lemma build_ui_str:
  "build_ui ev \<lparr>ud_word = JString w, ud_definition = JString dfn, ud_example = JString ex,
                ud_permalink = pl\<rparr> trail =
     (if length (first_seen (map lower (findall dfn @ findall ex))) \<le> 25
      then Inr (EmbedView (description (trail @ [w]) dfn ex (format_value ev pl))
                  (map (\<lambda>t. new_button t (trail @ [w]))
                     (first_seen (map lower (findall dfn @ findall ex)))))
      else Inl ValueError)"
  by (simp add: build_ui_def add_buttons_view Let_def)

lemma build_ui_Inr:
  assumes "build_ui ev d trail = Inr m"
  shows "\<exists>w dfn ex. ud_word d = JString w \<and> ud_definition d = JString dfn
           \<and> ud_example d = JString ex
           \<and> m = EmbedView (description (trail @ [w]) dfn ex (format_value ev (ud_permalink d)))
                   (map (\<lambda>t. new_button t (trail @ [w]))
                      (first_seen (map lower (findall dfn @ findall ex))))"
  using assms
  by (auto simp: build_ui_def add_buttons_view Let_def split: json.splits if_splits)

lemma sent_view_str:
  "sent_view (build_ui ev \<lparr>ud_word = JString w, ud_definition = JString dfn,
                ud_example = JString ex, ud_permalink = pl\<rparr> trail) =
     (if length (first_seen (map lower (findall dfn @ findall ex))) \<le> 25
      then map (\<lambda>t. new_button t (trail @ [w])) (first_seen (map lower (findall dfn @ findall ex)))
      else [])"
  by (simp add: build_ui_str sent_view_def)

text \<open>Twenty-six terms are one too many for the view: no message is sent.\<close>

lemma twenty_six_terms:
  "length (extract_terms ''[a][b][c][d][e][f][g][h][i][j][k][l][m][n][o][p][q][r][s][t][u][v][w][x][y][z]'' {}) = 26
   \<and> build_ui demo_env
        \<lparr>ud_word = JString ''abc'',
         ud_definition = JString ''[a][b][c][d][e][f][g][h][i][j][k][l][m][n][o][p][q][r][s][t][u][v][w][x][y][z]'',
         ud_example = JString [], ud_permalink = JString ''http://x''\<rparr> []
      = Inl ValueError"
  by code_simp

lemma lower_Nil: "lower [] = []"
  by (simp add: lower_def)

lemma lower_Bar: "lower ''Bar'' = ''bar''" and lower_bar: "lower ''bar'' = ''bar''"
  by code_simp+

section \<open>Term extraction\<close>

text \<open>
  C1. For every text \<open>T\<close> and every set \<open>S\<close> of excluded terms, the terms extracted (the
  groups of the pattern in \<open>T\<close>, in lower case, run through the loop started from \<open>S\<close>;
  the trail the buttons carry plays no part) hold no term of \<open>S\<close>, hold no term twice, and
  stand in first-seen order: they are the lower-cased groups outside \<open>S\<close>, each at the
  place of its first occurrence. Extracting from \<open>see [foo] and [FOO] and [bar]\<close> with
  nothing excluded gives \<open>foo\<close>, \<open>bar\<close>. On a view the loop adds the buttons of exactly
  these terms, in this order, when they are 25 at most, and raises otherwise.
\<close>

theorem term_extraction:
  "set (extract_terms T S) \<inter> S = {}
   \<and> distinct (extract_terms T S)
   \<and> extract_terms T S = first_seen (filter (\<lambda>t. t \<notin> S) (map lower (findall T)))
   \<and> extract_terms ''see [foo] and [FOO] and [bar]'' {} = [''foo'', ''bar'']
   \<and> add_buttons list_add_item tgh (findall T) ([], S)
       = Inr (map (\<lambda>t. new_button t tgh) (extract_terms T S), S \<union> set (map lower (findall T)))
   \<and> add_buttons view_add_item tgh (findall T) ([], S)
       = (if length (extract_terms T S) \<le> 25
          then Inr (map (\<lambda>t. new_button t tgh) (extract_terms T S),
                    S \<union> set (map lower (findall T)))
          else Inl ValueError)"
proof -
  have e: "extract_terms T S = first_seen (filter (\<lambda>t. t \<notin> S) (map lower (findall T)))"
    by (rule extract_terms_eq)
  have "set (extract_terms T S) \<inter> S = {}"
    unfolding e set_first_seen by auto
  moreover have "distinct (extract_terms T S)"
    unfolding e by (rule distinct_first_seen)
  moreover have "extract_terms ''see [foo] and [FOO] and [bar]'' {} = [''foo'', ''bar'']"
    by code_simp
  moreover have "add_buttons list_add_item tgh (findall T) ([], S)
       = Inr (map (\<lambda>t. new_button t tgh) (extract_terms T S), S \<union> set (map lower (findall T)))"
    by (simp only: add_buttons_list e append_Nil)
  moreover have "add_buttons view_add_item tgh (findall T) ([], S)
       = (if length (extract_terms T S) \<le> 25
          then Inr (map (\<lambda>t. new_button t tgh) (extract_terms T S),
                    S \<union> set (map lower (findall T)))
          else Inl ValueError)"
    using add_buttons_view [of "[]" tgh "findall T" S] by (simp add: e)
  ultimately show ?thesis using e by blast
qed

theorem term_extraction_witness:
  "extract_terms ''[b] [A] [a] [c] [B]'' {''c''} = [''b'', ''a'']
   \<and> add_buttons view_add_item [''w''] (findall ''[b] [A] [a] [c] [B]'') ([], {''c''})
       = Inr ([new_button ''b'' [''w''], new_button ''a'' [''w'']],
              {''c''} \<union> set (map lower (findall ''[b] [A] [a] [c] [B]'')))
   \<and> set [''b'', ''a''] \<inter> {''c''} = {}
   \<and> distinct [''b'', ''a'']
   \<and> first_seen (filter (\<lambda>t. t \<notin> {''c''}) (map lower (findall ''[b] [A] [a] [c] [B]'')))
       = [''b'', ''a'']"
proof -
  have v: "extract_terms ''[b] [A] [a] [c] [B]'' {''c''} = [''b'', ''a'']"
    by code_simp
  show ?thesis
    using term_extraction [of "''[b] [A] [a] [c] [B]''" "{''c''}" "[''w'']"] unfolding v by simp
qed

section \<open>Cross-references and the trail\<close>

text \<open>
  C2, as the claim states it, fails: the definition of \<open>foo\<close>, reached over \<open>bar\<close>, that
  links \<open>foo\<close> and \<open>bar\<close> gets a button for each, though one is the current term and the
  other is in the trail.
\<close>

theorem trail_terms_not_dropped:
  "map button_term
     (sent_view
        (build_ui demo_env
           \<lparr>ud_word = JString ''foo'', ud_definition = JString ''see [Foo] and [bar]'',
            ud_example = JString [], ud_permalink = JString ''http://x''\<rparr>
           [''bar''])) = [''foo'', ''bar'']"
  by code_simp

text \<open>
  C2, amended. When a definition is rendered, a cross-reference is dropped exactly when
  it equals, in lower case, one that came earlier in the same definition or example; the
  current term and the trail drop nothing. The cross-references left are the lower-cased
  groups of the definition and then of the example, each once, in first-seen order. When
  they are 25 at most, the message sent carries one button for each, in that order; when
  they are more, the view refuses the 26th button with \<open>ValueError\<close> and no message is
  sent.
\<close>

theorem duplicates_dropped_within_one_call:
  "map button_term
     (sent_view (build_ui ev \<lparr>ud_word = JString w, ud_definition = JString dfn,
                   ud_example = JString ex, ud_permalink = pl\<rparr> trail))
     = (if length (first_seen (map lower (findall dfn @ findall ex))) \<le> 25
        then first_seen (map lower (findall dfn @ findall ex)) else [])
   \<and> (build_ui ev \<lparr>ud_word = JString w, ud_definition = JString dfn,
                   ud_example = JString ex, ud_permalink = pl\<rparr> trail = Inl ValueError)
     = (25 < length (first_seen (map lower (findall dfn @ findall ex))))
   \<and> distinct (first_seen (map lower (findall dfn @ findall ex)))
   \<and> set (first_seen (map lower (findall dfn @ findall ex)))
     = lower ` (set (findall dfn) \<union> set (findall ex))"
proof -
  let ?ts = "first_seen (map lower (findall dfn @ findall ex))"
  let ?d = "\<lparr>ud_word = JString w, ud_definition = JString dfn,
                   ud_example = JString ex, ud_permalink = pl\<rparr>"
  have "map button_term (sent_view (build_ui ev ?d trail)) = (if length ?ts \<le> 25 then ?ts else [])"
  proof (cases "length ?ts \<le> 25")
    case True
    then show ?thesis by (simp only: sent_view_str if_True button_term_new_button)
  next
    case False
    then show ?thesis by (simp only: sent_view_str if_False list.map)
  qed
  moreover have "(build_ui ev ?d trail = Inl ValueError) = (25 < length ?ts)"
    by (simp add: build_ui_str not_le)
  moreover have "distinct ?ts"
    by (rule distinct_first_seen)
  moreover have "set ?ts = lower ` (set (findall dfn) \<union> set (findall ex))"
    by (simp only: set_first_seen set_map set_append)
  ultimately show ?thesis by blast
qed

theorem duplicates_dropped_within_one_call_witness:
  "map button_term
     (sent_view (build_ui demo_env \<lparr>ud_word = JString ''bar'', ud_definition = JString ''[Foo] [bar]'',
                   ud_example = JString ''[foo]'', ud_permalink = JString []\<rparr> [''foo'']))
     = [''foo'', ''bar'']
   \<and> first_seen (map lower (findall ''[Foo] [bar]'' @ findall ''[foo]'')) = [''foo'', ''bar'']
   \<and> build_ui demo_env \<lparr>ud_word = JString ''bar'', ud_definition = JString ''[Foo] [bar]'',
                   ud_example = JString ''[foo]'', ud_permalink = JString []\<rparr> [''foo'']
       \<noteq> Inl ValueError"
proof -
  have v: "first_seen (map lower (findall ''[Foo] [bar]'' @ findall ''[foo]'')) = [''foo'', ''bar'']"
    by code_simp
  show ?thesis
    using duplicates_dropped_within_one_call
      [of demo_env "''bar''" "''[Foo] [bar]''" "''[foo]''" "JString []" "[''foo'']"]
    unfolding v by simp
qed

text \<open>
  C3. For every definition record and every trail, every button that rendering adds
  carries the trail extended by the word of the definition at its end, one element longer
  than the trail; the trail passed in is a value and stays as it is. Pressing the button
  sends the definition of its term with that extended trail.
\<close>

theorem trail_at_trigger:
  "\<forall>b \<in> set (sent_view (build_ui ev d trail)).
     \<exists>w. ud_word d = JString w
       \<and> button_previous_terms b = trail @ [w]
       \<and> length (button_previous_terms b) = length trail + 1
       \<and> callback ev b = send_urban_dictionary_definition ev (button_term b) (trail @ [w])"
proof
  fix b
  assume b: "b \<in> set (sent_view (build_ui ev d trail))"
  then obtain m where m: "build_ui ev d trail = Inr m"
    by (cases "build_ui ev d trail") (auto simp: sent_view_def)
  from build_ui_Inr [OF m] obtain w dfn ex where
    w: "ud_word d = JString w" and
    v: "view_items m = map (\<lambda>t. new_button t (trail @ [w]))
                         (first_seen (map lower (findall dfn @ findall ex)))"
    by auto
  from b m v have "button_previous_terms b = trail @ [w]"
    by (auto simp: sent_view_def new_button_def)
  with w show "\<exists>w. ud_word d = JString w
       \<and> button_previous_terms b = trail @ [w]
       \<and> length (button_previous_terms b) = length trail + 1
       \<and> callback ev b = send_urban_dictionary_definition ev (button_term b) (trail @ [w])"
    by (simp add: callback_def)
qed

theorem trail_at_trigger_witness:
  "sent_view (build_ui demo_env foo_definition [''zero'']) = [new_button ''bar'' [''zero'', ''foo'']]
   \<and> button_previous_terms (new_button ''bar'' [''zero'', ''foo'']) = [''zero''] @ [''foo'']
   \<and> callback demo_env (new_button ''bar'' [''zero'', ''foo''])
       = send_urban_dictionary_definition demo_env ''bar'' ([''zero''] @ [''foo''])"
proof -
  have v: "sent_view (build_ui demo_env foo_definition [''zero''])
             = [new_button ''bar'' [''zero'', ''foo'']]"
    by code_simp
  have w: "ud_word foo_definition = JString ''foo''"
    by (simp add: foo_definition_def)
  have t: "button_term (new_button ''bar'' [''zero'', ''foo'']) = ''bar''"
    by (simp add: new_button_def)
  show ?thesis
    using trail_at_trigger [of demo_env foo_definition "[''zero'']"] unfolding v w
    by (simp add: t)
qed

section \<open>The fetcher and the flow\<close>

lemma fetch_empty_body:
  "http_get ev t = Inr [] \<Longrightarrow> fetch_urban_dictionary_definition ev t = Inr None"
  by (simp add: fetch_urban_dictionary_definition_def raise_or_def)

lemma fetch_None_iff:
  assumes "http_get ev t = Inr body"
  shows "fetch_urban_dictionary_definition ev t = Inr None \<longleftrightarrow> body = []"
  using assms
  by (auto simp: fetch_urban_dictionary_definition_def raise_or_def split: sum.splits)

lemma getitem_Inr:
  "getitem v key = Inr x \<longleftrightarrow> (\<exists>items. v = JObject items \<and> map_of items key = Some x)"
  by (cases v) (auto split: option.splits)

lemma getitem0_Inr_object:
  "getitem0 v = Inr x \<Longrightarrow> getitem x key = Inr y \<Longrightarrow> \<exists>rest. v = JArray (x # rest)"
  by (induction v rule: getitem0.induct) auto

lemma fetch_first:
  assumes "http_get ev t = Inr body" and "body \<noteq> []"
    and "json_loads ev body = Inr (JObject items)"
    and "map_of items ''list'' = Some (JArray (JObject fs # rest))"
    and "map_of fs ''word'' = Some w" and "map_of fs ''definition'' = Some d"
    and "map_of fs ''example'' = Some e" and "map_of fs ''permalink'' = Some p"
  shows "fetch_urban_dictionary_definition ev t
           = Inr (Some \<lparr>ud_word = w, ud_definition = d, ud_example = e, ud_permalink = p\<rparr>)"
  using assms by (simp add: fetch_urban_dictionary_definition_def raise_or_def)

lemma fetch_Some:
  assumes "fetch_urban_dictionary_definition ev t = Inr (Some r)"
  shows "\<exists>body items fs rest. http_get ev t = Inr body \<and> body \<noteq> []
           \<and> json_loads ev body = Inr (JObject items)
           \<and> map_of items ''list'' = Some (JArray (JObject fs # rest))
           \<and> map_of fs ''word'' = Some (ud_word r)
           \<and> map_of fs ''definition'' = Some (ud_definition r)
           \<and> map_of fs ''example'' = Some (ud_example r)
           \<and> map_of fs ''permalink'' = Some (ud_permalink r)"
proof -
  from assms obtain body where b: "http_get ev t = Inr body"
    by (cases "http_get ev t") (auto simp: fetch_urban_dictionary_definition_def raise_or_def)
  from assms b have ne: "body \<noteq> []"
    by (auto simp: fetch_urban_dictionary_definition_def raise_or_def)
  from assms b ne obtain doc where doc: "json_loads ev body = Inr doc"
    by (cases "json_loads ev body") (auto simp: fetch_urban_dictionary_definition_def raise_or_def)
  from assms b ne doc obtain lst where lst: "getitem doc ''list'' = Inr lst"
    by (cases "getitem doc ''list''") (auto simp: fetch_urban_dictionary_definition_def raise_or_def)
  from assms b ne doc lst obtain x where x: "getitem0 lst = Inr x"
    by (cases "getitem0 lst") (auto simp: fetch_urban_dictionary_definition_def raise_or_def)
  from assms b ne doc lst x obtain w where w: "getitem x ''word'' = Inr w"
    by (cases "getitem x ''word''") (auto simp: fetch_urban_dictionary_definition_def raise_or_def)
  from assms b ne doc lst x w obtain d where d: "getitem x ''definition'' = Inr d"
    by (cases "getitem x ''definition''")
      (auto simp: fetch_urban_dictionary_definition_def raise_or_def)
  from assms b ne doc lst x w d obtain e where e: "getitem x ''example'' = Inr e"
    by (cases "getitem x ''example''")
      (auto simp: fetch_urban_dictionary_definition_def raise_or_def)
  from assms b ne doc lst x w d e obtain p where p: "getitem x ''permalink'' = Inr p"
    by (cases "getitem x ''permalink''")
      (auto simp: fetch_urban_dictionary_definition_def raise_or_def)
  from assms b ne doc lst x w d e p
  have r: "r = \<lparr>ud_word = w, ud_definition = d, ud_example = e, ud_permalink = p\<rparr>"
    by (simp add: fetch_urban_dictionary_definition_def raise_or_def)
  from lst obtain items where items: "doc = JObject items" "map_of items ''list'' = Some lst"
    by (auto simp: getitem_Inr)
  from w obtain fs where fs: "x = JObject fs" "map_of fs ''word'' = Some w"
    by (auto simp: getitem_Inr)
  from getitem0_Inr_object [OF x w] obtain rest where rest: "lst = JArray (x # rest)" ..
  from d e p fs have "map_of fs ''definition'' = Some d" "map_of fs ''example'' = Some e"
    "map_of fs ''permalink'' = Some p"
    by (auto split: option.splits)
  with b ne doc items fs rest r show ?thesis by simp
qed

text \<open>
  C4, as the claim states it, fails in its second half: a body that is not empty need not
  hold a first candidate. For the document with an empty list, which is not an empty
  body, the fetcher raises \<open>IndexError\<close> and selects nothing.
\<close>

theorem fetch_of_empty_list_raises:
  "http_get demo_env ''unheard'' = Inr empty_list_body
   \<and> empty_list_body \<noteq> []
   \<and> json_loads demo_env empty_list_body = Inr (JObject [(''list'', JArray [])])
   \<and> fetch_urban_dictionary_definition demo_env ''unheard'' = Inl IndexError"
  by code_simp

text \<open>
  C4, amended. The fetcher returns \<open>None\<close> (not found) if and only if the body of the
  response is empty. For a body that is not empty and is read as a JSON object whose
  \<open>list\<close> is an array with a first element that is an object with the keys \<open>word\<close>,
  \<open>definition\<close>, \<open>example\<close> and \<open>permalink\<close>, it returns the record of that first element's
  four values as they are, whatever they are and whatever follows in the array; and only
  such a body gives a record (every other body that is not empty raises).
\<close>

theorem fetch_result:
  assumes "http_get ev t = Inr body"
  shows "(fetch_urban_dictionary_definition ev t = Inr None \<longleftrightarrow> body = [])
    \<and> (body \<noteq> [] \<and> json_loads ev body = Inr (JObject items)
         \<and> map_of items ''list'' = Some (JArray (JObject fs # rest))
         \<and> map_of fs ''word'' = Some w \<and> map_of fs ''definition'' = Some d
         \<and> map_of fs ''example'' = Some e \<and> map_of fs ''permalink'' = Some p
       \<longrightarrow> fetch_urban_dictionary_definition ev t
             = Inr (Some \<lparr>ud_word = w, ud_definition = d, ud_example = e, ud_permalink = p\<rparr>))
    \<and> (\<forall>r. fetch_urban_dictionary_definition ev t = Inr (Some r)
       \<longrightarrow> body \<noteq> []
           \<and> (\<exists>items fs rest. json_loads ev body = Inr (JObject items)
                 \<and> map_of items ''list'' = Some (JArray (JObject fs # rest))
                 \<and> map_of fs ''word'' = Some (ud_word r)
                 \<and> map_of fs ''definition'' = Some (ud_definition r)
                 \<and> map_of fs ''example'' = Some (ud_example r)
                 \<and> map_of fs ''permalink'' = Some (ud_permalink r)))"
proof (intro conjI impI allI)
  show "fetch_urban_dictionary_definition ev t = Inr None \<longleftrightarrow> body = []"
    using assms by (rule fetch_None_iff)
next
  assume "body \<noteq> [] \<and> json_loads ev body = Inr (JObject items)
         \<and> map_of items ''list'' = Some (JArray (JObject fs # rest))
         \<and> map_of fs ''word'' = Some w \<and> map_of fs ''definition'' = Some d
         \<and> map_of fs ''example'' = Some e \<and> map_of fs ''permalink'' = Some p"
  with assms show "fetch_urban_dictionary_definition ev t
             = Inr (Some \<lparr>ud_word = w, ud_definition = d, ud_example = e, ud_permalink = p\<rparr>)"
    by (simp add: fetch_first)
next
  fix r
  assume r: "fetch_urban_dictionary_definition ev t = Inr (Some r)"
  from fetch_Some [OF r] assms show "body \<noteq> []" by auto
  from fetch_Some [OF r] assms
  show "\<exists>items fs rest. json_loads ev body = Inr (JObject items)
                 \<and> map_of items ''list'' = Some (JArray (JObject fs # rest))
                 \<and> map_of fs ''word'' = Some (ud_word r)
                 \<and> map_of fs ''definition'' = Some (ud_definition r)
                 \<and> map_of fs ''example'' = Some (ud_example r)
                 \<and> map_of fs ''permalink'' = Some (ud_permalink r)"
    by auto
qed

theorem fetch_result_witness:
  "http_get demo_env ''foo'' = Inr foo_body
   \<and> foo_body \<noteq> []
   \<and> fetch_urban_dictionary_definition demo_env ''foo'' \<noteq> Inr None
   \<and> fetch_urban_dictionary_definition demo_env ''foo''
       = Inr (Some \<lparr>ud_word = JString ''foo'', ud_definition = JString ''see [bar]'',
                    ud_example = JString [], ud_permalink = JString ''http://x''\<rparr>)"
proof -
  define fs where "fs = [(''word'', JString ''foo''), (''definition'', JString ''see [bar]''),
          (''example'', JString []), (''permalink'', JString ''http://x'')]"
  define items where "items = [(''list'', JArray [JObject fs])]"
  have h: "http_get demo_env ''foo'' = Inr foo_body"
    by code_simp
  have ne: "foo_body \<noteq> []"
    by code_simp
  have "json_loads demo_env foo_body = Inr (JObject [(''list'', JArray [as_json foo_definition])])"
    by code_simp
  then have l: "json_loads demo_env foo_body = Inr (JObject items)"
    by (simp add: items_def fs_def as_json_def foo_definition_def)
  have m: "map_of items ''list'' = Some (JArray (JObject fs # []))"
    by (simp add: items_def)
  have w: "map_of fs ''word'' = Some (JString ''foo'')"
    and d: "map_of fs ''definition'' = Some (JString ''see [bar]'')"
    and e: "map_of fs ''example'' = Some (JString [])"
    and p: "map_of fs ''permalink'' = Some (JString ''http://x'')"
    by (simp_all add: fs_def)
  note R = fetch_result [OF h, of items fs "[]" "JString ''foo''" "JString ''see [bar]''"
      "JString []" "JString ''http://x''"]
  from R ne have A: "fetch_urban_dictionary_definition demo_env ''foo'' \<noteq> Inr None"
    by blast
  from R ne l m w d e p have B: "fetch_urban_dictionary_definition demo_env ''foo''
       = Inr (Some \<lparr>ud_word = JString ''foo'', ud_definition = JString ''see [bar]'',
                    ud_example = JString [], ud_permalink = JString ''http://x''\<rparr>)"
    by blast
  from h ne A B show ?thesis by blast
qed

text \<open>
  C5. Whenever the fetcher returns \<open>None\<close> (the body of the response was empty), the flow
  sends the one fixed text alone: a message without an embed and without a view, so with
  no button, whatever the term and the trail.
\<close>

theorem not_found_is_terminal:
  assumes "fetch_urban_dictionary_definition ev t = Inr None"
  shows "send_urban_dictionary_definition ev t trail = Inr (Content ''Failed to get a definition'')
    \<and> sent_view (send_urban_dictionary_definition ev t trail) = []"
  using assms by (simp add: send_urban_dictionary_definition_def raise_or_def sent_view_def)

theorem not_found_is_terminal_witness:
  "http_get demo_env ''silence'' = Inr []
   \<and> fetch_urban_dictionary_definition demo_env ''silence'' = Inr None
   \<and> send_urban_dictionary_definition demo_env ''silence'' [''foo'', ''bar'']
       = Inr (Content ''Failed to get a definition'')
   \<and> sent_view (send_urban_dictionary_definition demo_env ''silence'' [''foo'', ''bar'']) = []"
proof -
  have h: "http_get demo_env ''silence'' = Inr []"
    by code_simp
  have f: "fetch_urban_dictionary_definition demo_env ''silence'' = Inr None"
    using h by (rule fetch_empty_body)
  show ?thesis
    using not_found_is_terminal [OF f, of "[''foo'', ''bar'']"] h f by blast
qed

text \<open>The message sent for a definition fetched depends on the world only through how
  a value that is not a string is formatted.\<close>

lemma build_ui_env:
  "py_str ev1 = py_str ev2 \<Longrightarrow> build_ui ev1 d trail = build_ui ev2 d trail"
proof -
  assume s: "py_str ev1 = py_str ev2"
  have "format_value ev1 v = format_value ev2 v" for v
    using s by (cases v) simp_all
  then show ?thesis
    by (simp add: build_ui_def split: json.splits)
qed

lemma send_fetched:
  "fetch_urban_dictionary_definition ev t = Inr (Some d)
    \<Longrightarrow> send_urban_dictionary_definition ev t trail = build_ui ev d trail"
  by (simp add: send_urban_dictionary_definition_def raise_or_def)

text \<open>
  C6. The round trip. When the fetcher returns the record of \<open>foo\<close> (definition
  \<open>see [bar]\<close>, no example, link \<open>http://x\<close>) and the trail is empty, the message sent has
  the description that starts with the title line \<open># foo\<close>, and one button, labelled
  \<open>bar\<close>, for the term \<open>bar\<close>, with the trail \<open>foo\<close>. When that button is pressed and the
  fetcher returns the record of \<open>bar\<close> (no definition, no example, link \<open>http://y\<close>), the
  message sent has the title line \<open># foo > bar\<close> and no button.
\<close>

theorem round_trip:
  assumes "fetch_urban_dictionary_definition ev t = Inr (Some foo_definition)"
    and "fetch_urban_dictionary_definition ev ''bar'' = Inr (Some bar_definition)"
  shows "send_urban_dictionary_definition ev t []
      = Inr (EmbedView
               (''# foo'' @ [newline] @ ''### see __bar__'' @ [newline, newline, newline]
                  @ ''[website](http://x)'')
               [\<lparr>button_label = ''bar'', button_term = ''bar'',
                 button_previous_terms = [''foo'']\<rparr>])
    \<and> callback ev \<lparr>button_label = ''bar'', button_term = ''bar'',
                     button_previous_terms = [''foo'']\<rparr>
      = Inr (EmbedView
               (''# foo > bar'' @ [newline, newline, newline] @ ''[website](http://y)'') [])"
proof -
  have f: "build_ui ev foo_definition []
      = Inr (EmbedView
               (''# foo'' @ [newline] @ ''### see __bar__'' @ [newline, newline, newline]
                  @ ''[website](http://x)'')
               [\<lparr>button_label = ''bar'', button_term = ''bar'',
                 button_previous_terms = [''foo'']\<rparr>])"
  proof -
    have "build_ui demo_env foo_definition []
      = Inr (EmbedView
               (''# foo'' @ [newline] @ ''### see __bar__'' @ [newline, newline, newline]
                  @ ''[website](http://x)'')
               [\<lparr>button_label = ''bar'', button_term = ''bar'',
                 button_previous_terms = [''foo'']\<rparr>])"
      by code_simp
    moreover have "build_ui ev foo_definition [] = build_ui demo_env foo_definition []"
      by (simp add: build_ui_def foo_definition_def)
    ultimately show ?thesis by simp
  qed
  have b: "build_ui ev bar_definition [''foo'']
      = Inr (EmbedView
               (''# foo > bar'' @ [newline, newline, newline] @ ''[website](http://y)'') [])"
  proof -
    have "build_ui demo_env bar_definition [''foo'']
      = Inr (EmbedView
               (''# foo > bar'' @ [newline, newline, newline] @ ''[website](http://y)'') [])"
      by code_simp
    moreover have "build_ui ev bar_definition [''foo''] = build_ui demo_env bar_definition [''foo'']"
      by (simp add: build_ui_def bar_definition_def)
    ultimately show ?thesis by simp
  qed
  show ?thesis
    using f b send_fetched [OF assms(1), of "[]"] send_fetched [OF assms(2), of "[''foo'']"]
    by (simp add: callback_def)
qed

theorem round_trip_witness:
  "fetch_urban_dictionary_definition demo_env ''foo'' = Inr (Some foo_definition)
   \<and> fetch_urban_dictionary_definition demo_env ''bar'' = Inr (Some bar_definition)
   \<and> map button_label (sent_view (send_urban_dictionary_definition demo_env ''foo'' [])) = [''bar'']
   \<and> map (callback demo_env) (sent_view (send_urban_dictionary_definition demo_env ''foo'' []))
      = [Inr (EmbedView
               (''# foo > bar'' @ [newline, newline, newline] @ ''[website](http://y)'') [])]"
proof -
  have f: "fetch_urban_dictionary_definition demo_env ''foo'' = Inr (Some foo_definition)"
    by code_simp
  have b: "fetch_urban_dictionary_definition demo_env ''bar'' = Inr (Some bar_definition)"
    by code_simp
  show ?thesis
    using round_trip [OF f b] f b by (simp add: sent_view_def)
qed

section \<open>The cross-references of one definition\<close>

text \<open>
  C7, as the claim states it, fails: the pattern is searched in the definition and in the
  example one after the other, not in their concatenation. A bracket opened in the
  definition and closed in the example is a cross-reference of the concatenation and of
  neither part.
\<close>

theorem bracket_across_the_parts:
  "map button_term
     (sent_view
        (build_ui demo_env
           \<lparr>ud_word = JString ''w'', ud_definition = JString ''see [foo'',
            ud_example = JString ''bar]'', ud_permalink = JString []\<rparr> [])) = []
   \<and> extract_terms (''see [foo'' @ ''bar]'') {} = [''foobar'']"
  by code_simp

text \<open>
  C7, amended. For every definition record in which no bracket that the definition text
  leaves open is closed in the example (the definition text leaves no bracket open, or
  the example holds no closing bracket), and for every trail: the cross-references
  collected by rendering are those the term extractor returns, applied once to the
  definition text followed by the example, both as fetched, with nothing seen before.
  When they are 25 at most, the message sent carries exactly them, in that order; when
  they are more, the view refuses the 26th with \<open>ValueError\<close> and no message is sent.
  The condition is the one under which the scan of the two texts in a row returns the
  matches of the one and then of the other (\<open>findall_parts_iff\<close>).
\<close>

theorem cross_references_collected:
  assumes "brackets_closed dfn \<or> CHR '']'' \<notin> set ex"
  shows "add_buttons list_add_item (trail @ [w]) (findall dfn @ findall ex) ([], {})
           = Inr (map (\<lambda>t. new_button t (trail @ [w])) (extract_terms (dfn @ ex) {}),
                  set (extract_terms (dfn @ ex) {}))
    \<and> map button_term
           (sent_view (build_ui ev \<lparr>ud_word = JString w, ud_definition = JString dfn,
                         ud_example = JString ex, ud_permalink = pl\<rparr> trail))
         = (if length (extract_terms (dfn @ ex) {}) \<le> 25
            then extract_terms (dfn @ ex) {} else [])
    \<and> (build_ui ev \<lparr>ud_word = JString w, ud_definition = JString dfn,
                         ud_example = JString ex, ud_permalink = pl\<rparr> trail = Inl ValueError)
         = (25 < length (extract_terms (dfn @ ex) {}))"
proof -
  let ?ts = "first_seen (map lower (findall dfn @ findall ex))"
  let ?d = "\<lparr>ud_word = JString w, ud_definition = JString dfn,
                   ud_example = JString ex, ud_permalink = pl\<rparr>"
  have e: "extract_terms (dfn @ ex) {} = ?ts"
    by (simp add: extract_terms_eq findall_parts [OF assms])
  have "add_buttons list_add_item (trail @ [w]) (findall dfn @ findall ex) ([], {})
           = Inr (map (\<lambda>t. new_button t (trail @ [w])) ?ts, set ?ts)"
    by (simp add: add_buttons_list set_first_seen)
  moreover have "map button_term (sent_view (build_ui ev ?d trail))
      = (if length ?ts \<le> 25 then ?ts else [])"
  proof (cases "length ?ts \<le> 25")
    case True
    then show ?thesis by (simp only: sent_view_str if_True button_term_new_button)
  next
    case False
    then show ?thesis by (simp only: sent_view_str if_False list.map)
  qed
  moreover have "(build_ui ev ?d trail = Inl ValueError) = (25 < length ?ts)"
    by (simp add: build_ui_str not_le)
  ultimately show ?thesis unfolding e by blast
qed

theorem cross_references_collected_witness:
  "(brackets_closed ''a [Foo] ] b'' \<or> CHR '']'' \<notin> set ''[bar] [foo]'')
   \<and> map button_term
        (sent_view (build_ui demo_env \<lparr>ud_word = JString ''w'', ud_definition = JString ''a [Foo] ] b'',
                      ud_example = JString ''[bar] [foo]'', ud_permalink = JString []\<rparr> [''v'']))
      = [''foo'', ''bar'']
   \<and> extract_terms (''a [Foo] ] b'' @ ''[bar] [foo]'') {} = [''foo'', ''bar'']"
proof -
  have c: "brackets_closed ''a [Foo] ] b''"
    by code_simp
  then have h: "brackets_closed ''a [Foo] ] b'' \<or> CHR '']'' \<notin> set ''[bar] [foo]''" ..
  have e: "extract_terms (''a [Foo] ] b'' @ ''[bar] [foo]'') {} = [''foo'', ''bar'']"
    by code_simp
  show ?thesis
    using cross_references_collected [OF h, of "[''v'']" "''w''" demo_env "JString []"] c
    unfolding e by simp
qed

text \<open>The other way to meet the condition: the definition text leaves a bracket open and
  the example closes none.\<close>

lemma open_bracket_unclosed_example:
  "map button_term
     (sent_view (build_ui demo_env \<lparr>ud_word = JString ''w'', ud_definition = JString ''[a] see [foo'',
                   ud_example = JString ''[bar'', ud_permalink = JString []\<rparr> []))
     = [''a'']
   \<and> extract_terms (''[a] see [foo'' @ ''[bar'') {} = [''a'']"
  by code_simp

text \<open>
  C8, as the claim states it, fails: the rest of the two texts counts. With a second
  cross-reference in the definition there are two buttons.
\<close>

theorem second_reference_second_button:
  "map button_label
     (sent_view
        (build_ui demo_env
           \<lparr>ud_word = JString ''w'', ud_definition = JString ''[Bar] or [baz]'',
            ud_example = JString ''a [bar]'', ud_permalink = JString []\<rparr> [])) = [''bar'', ''baz'']"
  by code_simp

text \<open>
  C8, amended. For a definition whose definition text holds \<open>[Bar]\<close> and whose example
  holds \<open>[bar]\<close>, with no other opening bracket in either text, rendering adds exactly one
  button, and its label is \<open>bar\<close>, whatever the word, the link and the trail are.
\<close>

theorem one_button_for_both_cases:
  assumes "CHR ''['' \<notin> set p" and "CHR ''['' \<notin> set q"
    and "CHR ''['' \<notin> set r" and "CHR ''['' \<notin> set s"
  shows "sent_view (build_ui ev \<lparr>ud_word = JString w, ud_definition = JString (p @ ''[Bar]'' @ q),
                      ud_example = JString (r @ ''[bar]'' @ s), ud_permalink = pl\<rparr> trail)
         = [\<lparr>button_label = ''bar'', button_term = ''bar'',
             button_previous_terms = trail @ [w]\<rparr>]"
proof -
  have d: "findall (p @ ''[Bar]'' @ q) = [''Bar'']"
    using assms(1,2) by (simp add: findall_no_open findall_no_open_Nil)
  have e: "findall (r @ ''[bar]'' @ s) = [''bar'']"
    using assms(3,4) by (simp add: findall_no_open findall_no_open_Nil)
  have "first_seen (map lower (findall (p @ ''[Bar]'' @ q) @ findall (r @ ''[bar]'' @ s)))
          = [''bar'']"
    unfolding d e by (simp add: lower_Bar lower_bar)
  then show ?thesis
    unfolding sent_view_str by (simp add: new_button_def)
qed

theorem one_button_for_both_cases_witness:
  "CHR ''['' \<notin> set ''Foo or '' \<and> CHR ''['' \<notin> set '', see]'' \<and> CHR ''['' \<notin> set ''a '' \<and> CHR ''['' \<notin> set []
   \<and> sent_view (build_ui demo_env \<lparr>ud_word = JString ''foo'',
                    ud_definition = JString (''Foo or '' @ ''[Bar]'' @ '', see]''),
                    ud_example = JString (''a '' @ ''[bar]'' @ []),
                    ud_permalink = JString ''http://z''\<rparr> [''zero''])
      = [\<lparr>button_label = ''bar'', button_term = ''bar'',
          button_previous_terms = [''zero''] @ [''foo'']\<rparr>]"
proof -
  have a: "CHR ''['' \<notin> set ''Foo or ''" and b: "CHR ''['' \<notin> set '', see]''"
    and c: "CHR ''['' \<notin> set ''a ''" and d: "CHR ''['' \<notin> set []"
    by simp_all
  show ?thesis
    using one_button_for_both_cases [OF a b c d, of demo_env "''foo''" "JString ''http://z''" "[''zero'']"]
      a b c
    by simp
qed

text \<open>
  C9. Rendering is deterministic: two calls for which the fetcher returns the same
  definition record, started with the same trail, send the same message: the same
  description and the same buttons (label, term and trail) in the same order. The
  message is a function of the record and the trail alone: the term asked for and the
  state of the network at the two calls play no part.
\<close>

theorem rendering_deterministic:
  assumes "fetch_urban_dictionary_definition ev1 t1 = Inr (Some d1)"
    and "fetch_urban_dictionary_definition ev2 t2 = Inr (Some d2)"
    and "py_str ev1 = py_str ev2"
    and "d1 = d2" and "trail1 = trail2"
  shows "send_urban_dictionary_definition ev1 t1 trail1
           = send_urban_dictionary_definition ev2 t2 trail2
    \<and> map_option embed_description
          (case send_urban_dictionary_definition ev1 t1 trail1 of Inl e \<Rightarrow> None | Inr m \<Rightarrow> Some m)
      = map_option embed_description
          (case send_urban_dictionary_definition ev2 t2 trail2 of Inl e \<Rightarrow> None | Inr m \<Rightarrow> Some m)
    \<and> sent_view (send_urban_dictionary_definition ev1 t1 trail1)
      = sent_view (send_urban_dictionary_definition ev2 t2 trail2)"
proof -
  have "send_urban_dictionary_definition ev1 t1 trail1 = build_ui ev1 d1 trail1"
    using assms(1) by (rule send_fetched)
  also have "\<dots> = build_ui ev2 d1 trail1"
    using assms(3) by (rule build_ui_env)
  also have "\<dots> = build_ui ev2 d2 trail2"
    by (simp only: assms(4,5))
  also have "\<dots> = send_urban_dictionary_definition ev2 t2 trail2"
    using assms(2) by (rule send_fetched [symmetric])
  finally have "send_urban_dictionary_definition ev1 t1 trail1
           = send_urban_dictionary_definition ev2 t2 trail2" .
  then show ?thesis by (simp only: simp_thms)
qed

theorem rendering_deterministic_witness:
  "fetch_urban_dictionary_definition demo_env ''foo'' = Inr (Some foo_definition)
   \<and> fetch_urban_dictionary_definition (demo_env\<lparr>http_get := \<lambda>t. Inr foo_body\<rparr>) ''FOO''
       = Inr (Some foo_definition)
   \<and> send_urban_dictionary_definition demo_env ''foo'' [''zero'']
       = send_urban_dictionary_definition (demo_env\<lparr>http_get := \<lambda>t. Inr foo_body\<rparr>) ''FOO'' [''zero'']
   \<and> sent_view (send_urban_dictionary_definition demo_env ''foo'' [''zero''])
       = sent_view (send_urban_dictionary_definition
                      (demo_env\<lparr>http_get := \<lambda>t. Inr foo_body\<rparr>) ''FOO'' [''zero''])"
proof -
  have a: "fetch_urban_dictionary_definition demo_env ''foo'' = Inr (Some foo_definition)"
    by code_simp
  have b: "fetch_urban_dictionary_definition (demo_env\<lparr>http_get := \<lambda>t. Inr foo_body\<rparr>) ''FOO''
       = Inr (Some foo_definition)"
    by code_simp
  have c: "py_str demo_env = py_str (demo_env\<lparr>http_get := \<lambda>t. Inr foo_body\<rparr>)"
    by simp
  show ?thesis
    using rendering_deterministic [OF a b c refl refl, of "[''zero'']"] a b by blast
qed

text \<open>
  C10, as the claim states it, fails: an empty pair of brackets that stands inside a
  bracket still open is part of that bracket's group and is no cross-reference of its
  own. The text \<open>[a[]\<close> holds the one cross-reference \<open>a[\<close>.
\<close>

theorem empty_pair_inside_open_bracket:
  "findall ''[a[]'' = [''a['']
   \<and> map button_label
        (sent_view
           (build_ui demo_env
              \<lparr>ud_word = JString ''w'', ud_definition = JString ''[a[]'',
               ud_example = JString [], ud_permalink = JString []\<rparr> [])) = [''a['']"
  by code_simp

text \<open>
  C10, amended. An empty pair of brackets in the definition text or in the example, in
  front of which the text leaves no bracket open, is a cross-reference: the scan returns
  the empty string for it and the extractor returns the empty string as a term. When the
  cross-references of the definition are 25 at most, so that the message is sent, it
  carries a button whose label and term are the empty string (one such button, however
  often the empty string is found).
\<close>

theorem empty_brackets_captured:
  assumes "brackets_closed p"
    and "dfn = p @ ''[]'' @ q \<or> ex = p @ ''[]'' @ q"
    and "length (first_seen (map lower (findall dfn @ findall ex))) \<le> 25"
  shows "[] \<in> set (findall (p @ ''[]'' @ q))
    \<and> [] \<in> set (extract_terms (p @ ''[]'' @ q) {})
    \<and> \<lparr>button_label = [], button_term = [], button_previous_terms = trail @ [w]\<rparr>
        \<in> set (sent_view (build_ui ev \<lparr>ud_word = JString w, ud_definition = JString dfn,
                            ud_example = JString ex, ud_permalink = pl\<rparr> trail))
    \<and> length (filter (\<lambda>b. button_label b = [])
         (sent_view (build_ui ev \<lparr>ud_word = JString w, ud_definition = JString dfn,
                       ud_example = JString ex, ud_permalink = pl\<rparr> trail))) = 1"
proof -
  let ?ts = "first_seen (map lower (findall dfn @ findall ex))"
  have f: "findall (p @ ''[]'' @ q) = findall p @ [] # findall q"
    using assms(1) by (simp add: findall_append)
  then have m: "[] \<in> set (findall (p @ ''[]'' @ q))" by simp
  then have "lower [] \<in> set (map lower (findall (p @ ''[]'' @ q)))"
    by (simp only: set_map image_eqI)
  then have x: "[] \<in> set (extract_terms (p @ ''[]'' @ q) {})"
    by (simp add: extract_terms_eq set_first_seen lower_Nil)
  from m assms(2) have "[] \<in> set (findall dfn @ findall ex)" by auto
  then have "lower [] \<in> set (map lower (findall dfn @ findall ex))"
    by (simp only: set_map image_eqI)
  then have t: "[] \<in> set ?ts"
    by (simp only: set_first_seen lower_Nil)
  then have b: "new_button [] (trail @ [w]) \<in> set (map (\<lambda>t. new_button t (trail @ [w])) ?ts)"
    by (simp only: set_map image_eqI)
  have "filter (\<lambda>b. button_label b = []) (map (\<lambda>t. new_button t (trail @ [w])) xs)
          = map (\<lambda>t. new_button t (trail @ [w])) (filter (\<lambda>t. t = []) xs)" for xs
    by (induction xs) (simp_all add: new_button_def)
  moreover have "length (filter (\<lambda>t. t = []) ?ts) = 1"
  proof -
    have "distinct ?ts" by (rule distinct_first_seen)
    moreover have "distinct xs \<Longrightarrow> x \<in> set xs \<Longrightarrow> length (filter (\<lambda>t. t = x) xs) = 1"
      for x :: string and xs
      by (induction xs) (auto simp: filter_empty_conv)
    ultimately show ?thesis using t by blast
  qed
  ultimately have c: "length (filter (\<lambda>b. button_label b = [])
      (map (\<lambda>t. new_button t (trail @ [w])) ?ts)) = 1"
    by simp
  from m x b c show ?thesis
    unfolding sent_view_str if_P [OF assms(3)] by (simp add: new_button_def)
qed

theorem empty_brackets_captured_witness:
  "brackets_closed ''see [a] or''
   \<and> [] \<in> set (findall (''see [a] or'' @ ''[]'' @ '' and []''))
   \<and> first_seen (map lower (findall ''none'' @ findall (''see [a] or'' @ ''[]'' @ '' and []'')))
      = [''a'', []]
   \<and> sent_view (build_ui demo_env \<lparr>ud_word = JString ''w'', ud_definition = JString ''none'',
                    ud_example = JString (''see [a] or'' @ ''[]'' @ '' and []''),
                    ud_permalink = JString []\<rparr> [])
      = [new_button ''a'' [''w''], new_button [] [''w'']]"
proof -
  have c: "brackets_closed ''see [a] or''"
    by code_simp
  have l: "first_seen (map lower (findall ''none'' @ findall (''see [a] or'' @ ''[]'' @ '' and []'')))
      = [''a'', []]"
    by code_simp
  then have n: "length (first_seen (map lower (findall ''none''
      @ findall (''see [a] or'' @ ''[]'' @ '' and []'')))) \<le> 25"
    by simp
  have v: "sent_view (build_ui demo_env \<lparr>ud_word = JString ''w'', ud_definition = JString ''none'',
                    ud_example = JString (''see [a] or'' @ ''[]'' @ '' and []''),
                    ud_permalink = JString []\<rparr> [])
      = [new_button ''a'' [''w''], new_button [] [''w'']]"
    by code_simp
  have "''none'' = ''see [a] or'' @ ''[]'' @ '' and []''
      \<or> ''see [a] or'' @ ''[]'' @ '' and []'' = ''see [a] or'' @ ''[]'' @ '' and []''"
    by simp
  from empty_brackets_captured [OF c this n, of "[]" "''w''" demo_env "JString []"] c l v
  show ?thesis by blast
qed

end
